theory Spec2Isabelle
  imports Complex_Main
begin

section \<open>Point extraction from edge-saliency maps (triangler/edges.py)\<close>

text \<open>
  The module reduces an image to a weight map with one of three saliency algorithms
  (\<open>Canny\<close>, \<open>Entropy\<close>, \<open>Sobel\<close>) and hands the map to a sampling strategy.
  Arrays are modelled as nested lists in the index order of the source: an image of shape
  \<open>(width, height, channels)\<close> is a list of \<open>width\<close> rows of \<open>height\<close> pixels, a pixel is
  the list of its channel samples.

  Arithmetic on finite samples is exact (the reals), and the samples of an input image are
  finite; the rounding of binary floating point is modelled only for the two divisions
  that normalise the map of \<open>Entropy.compute\<close>, in a section of its own. The places where the source
  divides are modelled with the non-finite results numpy produces there (\<open>0/0\<close> is NaN,
  \<open>x/0\<close> is an infinity), since numpy does not raise on them. The \<open>numba.jit\<close>
  decorators are taken to keep the meaning of the Python functions they wrap.
\<close>

subsection \<open>Values and errors\<close>

datatype fval = Fin real | PInf | NInf | NaN

datatype error =
    UserWarning string
  | ValueError string
  | AssertionError
  | IndexError

type_synonym array2 = "real list list"
type_synonym farray2 = "fval list list"
type_synonym image = "real list list list"
type_synonym point = "int \<times> int"

fun fdiv :: "fval \<Rightarrow> fval \<Rightarrow> fval" where
  "fdiv NaN _ = NaN"
| "fdiv _ NaN = NaN"
| "fdiv (Fin x) (Fin y) =
     (if y \<noteq> 0 then Fin (x / y) else if x = 0 then NaN else if 0 < x then PInf else NInf)"
| "fdiv (Fin x) PInf = Fin 0"
| "fdiv (Fin x) NInf = Fin 0"
| "fdiv PInf (Fin y) = (if 0 \<le> y then PInf else NInf)"
| "fdiv NInf (Fin y) = (if 0 \<le> y then NInf else PInf)"
| "fdiv PInf PInf = NaN"
| "fdiv PInf NInf = NaN"
| "fdiv NInf PInf = NaN"
| "fdiv NInf NInf = NaN"

fun fmul :: "fval \<Rightarrow> fval \<Rightarrow> fval" where
  "fmul NaN _ = NaN"
| "fmul _ NaN = NaN"
| "fmul (Fin x) (Fin y) = Fin (x * y)"
| "fmul (Fin x) PInf = (if x = 0 then NaN else if 0 < x then PInf else NInf)"
| "fmul (Fin x) NInf = (if x = 0 then NaN else if 0 < x then NInf else PInf)"
| "fmul PInf (Fin y) = (if y = 0 then NaN else if 0 < y then PInf else NInf)"
| "fmul NInf (Fin y) = (if y = 0 then NaN else if 0 < y then NInf else PInf)"
| "fmul PInf PInf = PInf"
| "fmul PInf NInf = NInf"
| "fmul NInf PInf = NInf"
| "fmul NInf NInf = PInf"

text \<open>The maximum of two values as \<open>np.amax\<close> folds it: a NaN wins over everything.\<close>

fun fmax :: "fval \<Rightarrow> fval \<Rightarrow> fval" where
  "fmax NaN _ = NaN"
| "fmax _ NaN = NaN"
| "fmax PInf _ = PInf"
| "fmax _ PInf = PInf"
| "fmax NInf y = y"
| "fmax x NInf = x"
| "fmax (Fin x) (Fin y) = Fin (max x y)"

subsection \<open>Selectors\<close>

datatype EdgeMethod = CANNY | ENTROPY | SOBEL

datatype SampleMethod = POISSON_DISK | THRESHOLD

text \<open>
  The selectors are compared by identity (\<open>is\<close>) and Python does not enforce the
  annotation, so a selector may be any object: a member of the enumeration, or something
  else, of which only its rendering by \<open>str\<close> is used.
\<close>

datatype 'e selector = Member 'e | NonMember string

subsection \<open>EdgePoints: construction\<close>

text \<open>\<open>round\<close> of Python 3 on a float: to the nearest integer, a tie to the even one.\<close>

definition py_round :: "real \<Rightarrow> int" where
  "py_round x =
     (let f = \<lfloor>x\<rfloor>; d = x - of_int f
      in if d < 1 / 2 then f else if 1 / 2 < d then f + 1 else if even f then f else f + 1)"

definition shape0 :: "image \<Rightarrow> nat" where
  "shape0 im = length im"

definition shape1 :: "image \<Rightarrow> nat" where
  "shape1 im = (case im of [] \<Rightarrow> 0 | r # _ \<Rightarrow> length r)"

definition shape2 :: "image \<Rightarrow> nat" where
  "shape2 im = (case im of [] \<Rightarrow> 0 | r # _ \<Rightarrow> (case r of [] \<Rightarrow> 0 | p # _ \<Rightarrow> length p))"

record EdgePoints =
  img :: image
  width :: nat
  height :: nat
  num_of_points :: int
  edge_method :: "EdgeMethod selector"

definition EdgePoints_init :: "image \<Rightarrow> int \<Rightarrow> EdgeMethod selector \<Rightarrow> error + EdgePoints" where
  "EdgePoints_init im n edge =
     (let w = shape0 im; h = shape1 im
      in if n > py_round (real (w * h) * 0.5)
         then Inl (UserWarning ''The number of points is too large'')
         else Inr \<lparr> img = im, width = w, height = h, num_of_points = n, edge_method = edge \<rparr>)"

subsection \<open>Array helpers\<close>

definition dim0 :: "'a list list \<Rightarrow> nat" where
  "dim0 a = length a"

definition dim1 :: "'a list list \<Rightarrow> nat" where
  "dim1 a = (case a of [] \<Rightarrow> 0 | r # _ \<Rightarrow> length r)"

text \<open>\<open>np.amax\<close> / \<open>np.max\<close> of an array: a zero-size array raises.\<close>

definition amax :: "array2 \<Rightarrow> error + real" where
  "amax a =
     (case concat a of
        [] \<Rightarrow> Inl (ValueError ''zero-size array to reduction operation maximum which has no identity'')
      | x # xs \<Rightarrow> Inr (fold max xs x))"

definition amaxf :: "farray2 \<Rightarrow> error + fval" where
  "amaxf a =
     (case concat a of
        [] \<Rightarrow> Inl (ValueError ''zero-size array to reduction operation maximum which has no identity'')
      | x # xs \<Rightarrow> Inr (fold fmax xs x))"

text \<open>\<open>np.mean\<close> of an array: the sum over the number of elements (NaN when there is none).\<close>

definition mean :: "array2 \<Rightarrow> fval" where
  "mean a = fdiv (Fin (sum_list (concat a))) (Fin (real (length (concat a))))"

subsection \<open>The convolution primitive\<close>

text \<open>
  Modelled from the spec: the convolution primitive of section 4.1, which the source
  imports (\<open>convolve2d\<close> with \<open>mode="same"\<close>, \<open>boundary="symm"\<close>). The output has the shape
  of the input; cell \<open>(i, j)\<close> is the sum over the kernel of \<open>k[u][v] * a[i + c0 - u][j + c1 - v]\<close>
  with \<open>c0 = (kw - 1) div 2\<close>, \<open>c1 = (kh - 1) div 2\<close>, and an index outside the array is
  reflected about the border (\<open>-1\<close> reads \<open>0\<close>, \<open>n\<close> reads \<open>n - 1\<close>).
\<close>

definition symm_index :: "nat \<Rightarrow> int \<Rightarrow> nat" where
  "symm_index n i =
     (let m = i mod (2 * int n) in nat (if m < int n then m else 2 * int n - 1 - m))"

definition convolve2d :: "array2 \<Rightarrow> array2 \<Rightarrow> array2" where
  "convolve2d a k =
     (let W = dim0 a; H = dim1 a; kw = dim0 k; kh = dim1 k
      in map (\<lambda>i. map (\<lambda>j.
            (\<Sum>u\<leftarrow>[0..<kw]. \<Sum>v\<leftarrow>[0..<kh].
               k ! u ! v *
               a ! symm_index W (int i + int ((kw - 1) div 2) - int u)
                 ! symm_index H (int j + int ((kh - 1) div 2) - int v)))
          [0..<H]) [0..<W])"

subsection \<open>Canny.compute\<close>

text \<open>
  Modelled from the spec: step 1 of section 4.2, the luminance-weighted reduction of the
  channels, which the source imports (\<open>rgb2gray\<close> of scikit-image). The weights are
  those of that function, 0.2125, 0.7154 and 0.0721 on the first three channels; an array
  with fewer than three channels is refused.
\<close>

definition rgb2gray :: "image \<Rightarrow> error + array2" where
  "rgb2gray im =
     (if shape2 im < 3 then Inl (ValueError ''the input array must have 3 channels'')
      else Inr (map (map (\<lambda>p. 0.2125 * p ! 0 + 0.7154 * p ! 1 + 0.0721 * p ! 2)) im))"

definition threshold :: real where
  "threshold = 3 / 256"

text \<open>\<open>np.ones(shape=(2 * blur + 1, 2 * blur + 1)) / ((2 * blur + 1) ** 2)\<close>\<close>

definition blur_filt :: "int \<Rightarrow> error + array2" where
  "blur_filt blur =
     (let n = 2 * blur + 1
      in if n < 0 then Inl (ValueError ''negative dimensions are not allowed'')
         else Inr (replicate (nat n) (replicate (nat n) (1 / real_of_int (n ^ 2)))))"

definition edge_filt :: array2 where
  "edge_filt = [[1, 1, 1], [1, -8, 1], [1, 1, 1]]"

definition dense_filt :: array2 where
  "dense_filt = replicate 3 (replicate 3 1)"

text \<open>The indices \<open>np.ndenumerate\<close> runs through, in row-major order.\<close>

definition ndenumerate :: "array2 \<Rightarrow> (nat \<times> nat) list" where
  "ndenumerate a = concat (map (\<lambda>i. map (\<lambda>j. (i, j)) [0..<length (a ! i)]) [0..<length a])"

text \<open>
  The loop \<open>for idx, val in np.ndenumerate(edge): if val < threshold: edge[idx] = 0\<close>:
  the array is updated in place while it is traversed.
\<close>

fun clamp_loop :: "(nat \<times> nat) list \<Rightarrow> array2 \<Rightarrow> array2" where
  "clamp_loop [] edge = edge"
| "clamp_loop ((i, j) # idxs) edge =
     clamp_loop idxs
       (if edge ! i ! j < threshold then edge[i := (edge ! i)[j := 0]] else edge)"

definition Canny_blurred :: "image \<Rightarrow> int \<Rightarrow> error + array2" where
  "Canny_blurred im blur =
     (case rgb2gray im of Inl e \<Rightarrow> Inl e | Inr gray_img \<Rightarrow>
      (case blur_filt blur of Inl e \<Rightarrow> Inl e | Inr filt \<Rightarrow>
        Inr (convolve2d gray_img filt)))"

definition Canny_edge :: "image \<Rightarrow> int \<Rightarrow> error + array2" where
  "Canny_edge im blur =
     (case Canny_blurred im blur of Inl e \<Rightarrow> Inl e | Inr blurred \<Rightarrow>
        Inr (convolve2d blurred edge_filt))"

definition Canny_thresholded :: "image \<Rightarrow> int \<Rightarrow> error + array2" where
  "Canny_thresholded im blur =
     (case Canny_edge im blur of Inl e \<Rightarrow> Inl e | Inr edge \<Rightarrow>
        Inr (clamp_loop (ndenumerate edge) edge))"

definition Canny_dense :: "image \<Rightarrow> int \<Rightarrow> error + array2" where
  "Canny_dense im blur =
     (case Canny_thresholded im blur of Inl e \<Rightarrow> Inl e | Inr edge \<Rightarrow>
        Inr (convolve2d edge dense_filt))"

text \<open>\<open>dense /= np.amax(dense)\<close>\<close>

definition div_by_max :: "array2 \<Rightarrow> error + farray2" where
  "div_by_max a =
     (case amax a of Inl e \<Rightarrow> Inl e | Inr m \<Rightarrow>
        Inr (map (map (\<lambda>x. fdiv (Fin x) (Fin m))) a))"

definition Canny_compute :: "image \<Rightarrow> int \<Rightarrow> error + farray2" where
  "Canny_compute im blur =
     (case Canny_dense im blur of Inl e \<Rightarrow> Inl e | Inr dense \<Rightarrow> div_by_max dense)"

subsection \<open>Entropy.compute\<close>

text \<open>
  The two feature maps are built by third-party filters only (total-variation denoising,
  rank entropy, dilation, Gaussian and Scharr filters, colour conversions); they enter
  as the parameters \<open>entropy_f\<close> and \<open>edges_f\<close>, maps from the image to an array of the
  image's width and height. The blend and its normalisation are the source's own.
\<close>

definition blend :: "real \<Rightarrow> array2 \<Rightarrow> array2 \<Rightarrow> array2" where
  "blend bal entropy_img edges_img =
     map2 (map2 (\<lambda>e g. bal * e + (1 - bal) * g)) entropy_img edges_img"

text \<open>\<open>weight /= np.mean(weight)\<close>\<close>

definition div_by_mean :: "array2 \<Rightarrow> farray2" where
  "div_by_mean a = map (map (\<lambda>x. fdiv (Fin x) (mean a))) a"

text \<open>\<open>weight /= np.amax(weight)\<close>, on the array already divided by its mean.\<close>

definition fdiv_by_max :: "farray2 \<Rightarrow> error + farray2" where
  "fdiv_by_max a =
     (case amaxf a of Inl e \<Rightarrow> Inl e | Inr m \<Rightarrow> Inr (map (map (\<lambda>x. fdiv x m)) a))"

definition Entropy_normalise :: "array2 \<Rightarrow> error + farray2" where
  "Entropy_normalise weight = fdiv_by_max (div_by_mean weight)"

definition Entropy_compute ::
  "(image \<Rightarrow> array2) \<Rightarrow> (image \<Rightarrow> array2) \<Rightarrow> image \<Rightarrow> real \<Rightarrow> error + farray2" where
  "Entropy_compute entropy_f edges_f im bal =
     (let entropy_img = entropy_f im;
          edges_img = edges_f im;
          weight = blend bal entropy_img edges_img
      in Entropy_normalise weight)"

subsection \<open>Sobel.compute\<close>

definition sobel_kh3 :: array2 where
  "sobel_kh3 = [[-1, 0, 1], [-2, 0, 2], [-1, 0, 1]]"

definition sobel_kv3 :: array2 where
  "sobel_kv3 = [[1, 2, 1], [0, 0, 0], [-1, -2, -1]]"

definition sobel_kh5 :: array2 where
  "sobel_kh5 =
     [[-1, -2, 0, 2, 1],
      [-4, -8, 0, 8, 4],
      [-6, -12, 0, 12, 6],
      [-4, -8, 0, 8, 4],
      [-1, -2, 0, 2, 1]]"

definition sobel_kv5 :: array2 where
  "sobel_kv5 =
     [[1, 4, 6, 4, 1],
      [2, 8, 12, 8, 2],
      [0, 0, 0, 0, 0],
      [-2, -8, -12, -8, -2],
      [-1, -4, -6, -4, -1]]"

text \<open>
  The reduction to one channel (\<open>np.float\<close> is numpy's former alias of Python's \<open>float\<close>,
  so \<open>astype\<close> keeps the finite samples). With two channels the read of channel 2 is out
  of range; with at most one channel the three-dimensional array is passed on and the
  two-dimensional convolution refuses it (after the assertion on the kernel size).
\<close>

definition sobel_gray :: "image \<Rightarrow> error + array2 option" where
  "sobel_gray im =
     (let c = shape2 im
      in if c > 1
         then (if c < 3 then Inl IndexError
               else Inr (Some (map (map (\<lambda>p. 0.2126 * p ! 0 + 0.7152 * p ! 1 + 0.0722 * p ! 2)) im)))
         else Inr None)"

definition magnitude :: "array2 \<Rightarrow> array2 \<Rightarrow> array2" where
  "magnitude gx gy = map2 (map2 (\<lambda>x y. sqrt (x * x + y * y))) gx gy"

definition Sobel_g :: "image \<Rightarrow> int \<Rightarrow> error + array2" where
  "Sobel_g im k_size =
     (case sobel_gray im of Inl e \<Rightarrow> Inl e | Inr gray \<Rightarrow>
        if \<not> (k_size = 3 \<or> k_size = 5) then Inl AssertionError
        else
          (let kh = (if k_size = 3 then sobel_kh3 else sobel_kh5);
               kv = (if k_size = 3 then sobel_kv3 else sobel_kv5)
           in case gray of
                None \<Rightarrow> Inl (ValueError ''convolve2d inputs must both be 2-D arrays'')
              | Some g2 \<Rightarrow>
                  (let gx = convolve2d g2 kh; gy = convolve2d g2 kv
                   in Inr (magnitude gx gy))))"

text \<open>\<open>g *= 255.0 / np.max(g)\<close>\<close>

definition scale_to_255 :: "array2 \<Rightarrow> error + farray2" where
  "scale_to_255 g =
     (case amax g of Inl e \<Rightarrow> Inl e | Inr m \<Rightarrow>
        Inr (map (map (\<lambda>x. fmul (Fin x) (fdiv (Fin 255) (Fin m)))) g))"

definition Sobel_compute :: "image \<Rightarrow> int \<Rightarrow> error + farray2" where
  "Sobel_compute im k_size =
     (case Sobel_g im k_size of Inl e \<Rightarrow> Inl e | Inr g \<Rightarrow> scale_to_255 g)"

subsection \<open>EdgePoints.get_edge_points\<close>

text \<open>
  What the module imports from \<open>triangler.sampling\<close>, and the filters behind
  \<open>Entropy.compute\<close>, are parameters: the two sampling strategies (each returns the
  sampled points, one row per point, or raises), and the rendering of
  \<open>SampleMethod.__members__\<close>.
\<close>

record externals =
  poisson_disk_sample :: "int \<Rightarrow> farray2 \<Rightarrow> error + point list"
  threshold_sample :: "int \<Rightarrow> farray2 \<Rightarrow> real \<Rightarrow> error + point list"
  SampleMethod_members :: string
  entropy_stage :: "image \<Rightarrow> array2"
  edges_stage :: "image \<Rightarrow> array2"

definition unexpected_edge_message :: "externals \<Rightarrow> string \<Rightarrow> string" where
  "unexpected_edge_message ext shown =
     ''Unexpected edge processing method: '' @ shown @ [CHR 0x0A] @
     ''use '' @ ''SampleMethod'' @ '' instead: '' @ SampleMethod_members ext"

definition unexpected_sampling_message :: "externals \<Rightarrow> string \<Rightarrow> string" where
  "unexpected_sampling_message ext shown =
     ''Unexpected sampling method: '' @ shown @ [CHR 0x0A] @
     ''use '' @ ''SampleMethod'' @ '' instead: '' @ SampleMethod_members ext"

definition compute_edges :: "externals \<Rightarrow> EdgePoints \<Rightarrow> int \<Rightarrow> error + farray2" where
  "compute_edges ext self blur =
     (case edge_method self of
        Member CANNY \<Rightarrow> Canny_compute (img self) blur
      | Member ENTROPY \<Rightarrow> Entropy_compute (entropy_stage ext) (edges_stage ext) (img self) 0.1
      | Member SOBEL \<Rightarrow> Sobel_compute (img self) 5
      | NonMember shown \<Rightarrow> Inl (ValueError (unexpected_edge_message ext shown)))"

definition sample :: "externals \<Rightarrow> EdgePoints \<Rightarrow> SampleMethod selector \<Rightarrow> farray2 \<Rightarrow> error + point list" where
  "sample ext self sampling edges =
     (case sampling of
        Member POISSON_DISK \<Rightarrow> poisson_disk_sample ext (num_of_points self) edges
      | Member THRESHOLD \<Rightarrow> threshold_sample ext (num_of_points self) edges 0.2
      | NonMember shown \<Rightarrow> Inl (ValueError (unexpected_sampling_message ext shown)))"

definition corners :: "EdgePoints \<Rightarrow> point list" where
  "corners self =
     [(0, 0),
      (0, int (height self) - 1),
      (int (width self) - 1, 0),
      (int (width self) - 1, int (height self) - 1)]"

definition get_edge_points ::
  "externals \<Rightarrow> EdgePoints \<Rightarrow> int \<Rightarrow> SampleMethod selector \<Rightarrow> error + point list" where
  "get_edge_points ext self blur sampling =
     (case compute_edges ext self blur of Inl e \<Rightarrow> Inl e | Inr edges \<Rightarrow>
      (case sample ext self sampling edges of Inl e \<Rightarrow> Inl e | Inr sample_points \<Rightarrow>
         Inr (sample_points @ corners self)))"

text \<open>The call sequence of a client: construct the extractor, then extract.\<close>

definition extract_points ::
  "externals \<Rightarrow> image \<Rightarrow> int \<Rightarrow> EdgeMethod selector \<Rightarrow> int \<Rightarrow> SampleMethod selector
     \<Rightarrow> error + point list" where
  "extract_points ext im n edge blur sampling =
     (case EdgePoints_init im n edge of Inl e \<Rightarrow> Inl e
      | Inr self \<Rightarrow> get_edge_points ext self blur sampling)"

subsection \<open>Sample inputs\<close>

text \<open>A two-by-two image with one bright pixel, and sampling strategies that return fixed points.\<close>

definition im0 :: image where
  "im0 = [[[0, 0, 0], [0, 0, 0]], [[0, 0, 0], [1, 1, 1]]]"

definition ext0 :: externals where
  "ext0 = \<lparr> poisson_disk_sample = (\<lambda>n edges. Inr [(1, 0)]),
            threshold_sample = (\<lambda>n edges t. Inr [(1, 1), (0, 1)]),
            SampleMethod_members = ''{POISSON_DISK, THRESHOLD}'',
            entropy_stage = (\<lambda>im. [[0, 1], [2, 3]]),
            edges_stage = (\<lambda>im. [[1, 1], [0, 2]]) \<rparr>"

subsection \<open>Auxiliary notions used in the statements\<close>

text \<open>What the thresholding loop leaves in a cell that held \<open>v\<close>.\<close>

definition clamp :: "real \<Rightarrow> real" where
  "clamp v = (if v < threshold then 0 else v)"

text \<open>An array is rectangular when every row has the length of the first one.\<close>

definition rectangular :: "'a list list \<Rightarrow> bool" where
  "rectangular a = (map length a = replicate (dim0 a) (dim1 a))"

text \<open>The array of width \<open>W\<close> and height \<open>H\<close> that holds \<open>c\<close> in every cell.\<close>

definition flat2 :: "nat \<Rightarrow> nat \<Rightarrow> 'a \<Rightarrow> 'a list list" where
  "flat2 W H c = replicate W (replicate H c)"

text \<open>An image is constant when all its pixels are the same.\<close>

definition constant_image :: "image \<Rightarrow> bool" where
  "constant_image im = (length (remdups (concat im)) \<le> 1)"

subsection \<open>The algorithms on a store of arrays\<close>

text \<open>
  Arrays are objects: a caller and an algorithm can hold the same array, and the source
  updates arrays in place (\<open>edge[idx] = 0\<close>, \<open>dense /= ...\<close>, \<open>weight /= ...\<close>,
  \<open>g *= ...\<close>). Here the store is the list of all arrays allocated so far, an address is an
  index into it, an allocation appends, and an in-place update replaces a cell. Every
  library call (\<open>rgb2gray\<close>, \<open>np.ones\<close>, \<open>np.array\<close>, \<open>convolve2d\<close>, \<open>astype\<close>, the
  arithmetic on whole arrays, the filters behind the two feature maps of \<open>Entropy\<close>)
  returns a newly allocated array and leaves its arguments alone.
\<close>

datatype ndarray = Img image | Arr array2 | FArr farray2

type_synonym store = "ndarray list"

definition alloc :: "ndarray \<Rightarrow> store \<Rightarrow> nat \<times> store" where
  "alloc v s = (length s, s @ [v])"

text \<open>Reads of a cell at the type the code expects there.\<close>

definition read_image :: "store \<Rightarrow> nat \<Rightarrow> image" where
  "read_image s a = (case s ! a of Img x \<Rightarrow> x | _ \<Rightarrow> [])"

definition read_array :: "store \<Rightarrow> nat \<Rightarrow> array2" where
  "read_array s a = (case s ! a of Arr x \<Rightarrow> x | _ \<Rightarrow> [])"

definition read_farray :: "store \<Rightarrow> nat \<Rightarrow> farray2" where
  "read_farray s a = (case s ! a of FArr x \<Rightarrow> x | _ \<Rightarrow> [])"

fun clamp_loop_st :: "nat \<Rightarrow> (nat \<times> nat) list \<Rightarrow> store \<Rightarrow> store" where
  "clamp_loop_st edge [] s = s"
| "clamp_loop_st edge ((i, j) # idxs) s =
     clamp_loop_st edge idxs
       (if read_array s edge ! i ! j < threshold
        then s[edge := Arr ((read_array s edge)[i := (read_array s edge ! i)[j := 0]])]
        else s)"

definition Canny_compute_st :: "nat \<Rightarrow> int \<Rightarrow> store \<Rightarrow> (error + nat) \<times> store" where
  "Canny_compute_st a blur s =
     (case rgb2gray (read_image s a) of Inl e \<Rightarrow> (Inl e, s) | Inr gray \<Rightarrow>
      let (gray_img, s) = alloc (Arr gray) s
      in case blur_filt blur of Inl e \<Rightarrow> (Inl e, s) | Inr filt \<Rightarrow>
      let (blur_filt_a, s) = alloc (Arr filt) s;
          (blurred, s) = alloc (Arr (convolve2d (read_array s gray_img) (read_array s blur_filt_a))) s;
          (edge_filt_a, s) = alloc (Arr edge_filt) s;
          (edge, s) = alloc (Arr (convolve2d (read_array s blurred) (read_array s edge_filt_a))) s;
          s = clamp_loop_st edge (ndenumerate (read_array s edge)) s;
          (dense_filt_a, s) = alloc (Arr dense_filt) s;
          (dense, s) = alloc (Arr (convolve2d (read_array s edge) (read_array s dense_filt_a))) s
      in case amax (read_array s dense) of Inl e \<Rightarrow> (Inl e, s)
         | Inr m \<Rightarrow>
             (Inr dense,
              s[dense := FArr (map (map (\<lambda>x. fdiv (Fin x) (Fin m))) (read_array s dense))]))"

definition Entropy_compute_st ::
  "(image \<Rightarrow> array2) \<Rightarrow> (image \<Rightarrow> array2) \<Rightarrow> nat \<Rightarrow> real \<Rightarrow> store \<Rightarrow> (error + nat) \<times> store" where
  "Entropy_compute_st entropy_f edges_f a bal s =
     (let (entropy_img, s) = alloc (Arr (entropy_f (read_image s a))) s;
          (edges_img, s) = alloc (Arr (edges_f (read_image s a))) s;
          (weight, s) =
             alloc (Arr (blend bal (read_array s entropy_img) (read_array s edges_img))) s;
          s = s[weight := FArr (div_by_mean (read_array s weight))]
      in case amaxf (read_farray s weight) of Inl e \<Rightarrow> (Inl e, s)
         | Inr m \<Rightarrow>
             (Inr weight, s[weight := FArr (map (map (\<lambda>x. fdiv x m)) (read_farray s weight))]))"

text \<open>
  \<open>im = img.astype(np.float)\<close> copies the image; the name \<open>img\<close> is then rebound to the
  luminance array (or to the copy), which does not touch the caller's array.
\<close>

definition Sobel_compute_st :: "nat \<Rightarrow> int \<Rightarrow> store \<Rightarrow> (error + nat) \<times> store" where
  "Sobel_compute_st a k_size s =
     (let (im, s) = alloc (Img (read_image s a)) s;
          c = shape2 (read_image s im)
      in case (if c > 1
               then (if c < 3 then (Inl IndexError, s)
                     else (let (img2, s) =
                                alloc (Arr (map (map (\<lambda>p. 0.2126 * p ! 0 + 0.7152 * p ! 1 + 0.0722 * p ! 2))
                                                (read_image s im))) s
                           in (Inr (Some img2), s)))
               else (Inr None, s)) of
           (Inl e, s) \<Rightarrow> (Inl e, s)
         | (Inr img2, s) \<Rightarrow>
             if \<not> (k_size = 3 \<or> k_size = 5) then (Inl AssertionError, s)
             else
               (let (kh, s) = alloc (Arr (if k_size = 3 then sobel_kh3 else sobel_kh5)) s;
                    (kv, s) = alloc (Arr (if k_size = 3 then sobel_kv3 else sobel_kv5)) s
                in case img2 of
                     None \<Rightarrow> (Inl (ValueError ''convolve2d inputs must both be 2-D arrays''), s)
                   | Some img2 \<Rightarrow>
                       (let (gx, s) = alloc (Arr (convolve2d (read_array s img2) (read_array s kh))) s;
                            (gy, s) = alloc (Arr (convolve2d (read_array s img2) (read_array s kv))) s;
                            (g, s) = alloc (Arr (magnitude (read_array s gx) (read_array s gy))) s
                        in case amax (read_array s g) of Inl e \<Rightarrow> (Inl e, s)
                           | Inr m \<Rightarrow>
                               (Inr g,
                                s[g := FArr (map (map (\<lambda>x. fmul (Fin x) (fdiv (Fin 255) (Fin m))))
                                                 (read_array s g))]))))"

subsection \<open>A low-contrast image\<close>

text \<open>Three black pixels and one pixel of value \<open>1/1000\<close> in each channel.\<close>

definition im_low :: image where
  "im_low = [[[0, 0, 0], [0, 0, 0]], [[0, 0, 0], [1 / 1000, 1 / 1000, 1 / 1000]]]"

subsection \<open>The normalisation of Entropy.compute in float64\<close>

text \<open>
  The definitions above divide exactly. Here the two in-place divisions of
  \<open>Entropy.compute\<close> are modelled with the rounding of IEEE 754 binary64, the element
  type of the arrays; a finite float64 value is the real number it denotes.
\<close>

text \<open>\<open>2 ^ k\<close> for an integer exponent.\<close>

definition pow2 :: "int \<Rightarrow> real" where
  "pow2 k = (if 0 \<le> k then 2 ^ nat k else 1 / 2 ^ nat (- k))"

text \<open>
  The exponent of the binade of \<open>x\<close>, not below that of the smallest normal number; the
  unit in the last place of \<open>x\<close> is \<open>2 ^ (binade x - 52)\<close>.
\<close>

definition binade :: "real \<Rightarrow> int" where
  "binade x = max (- 1022) \<lfloor>log 2 \<bar>x\<bar>\<rfloor>"

text \<open>
  Rounding to binary64: to the nearest multiple of the unit in the last place, a tie to the
  even significand; a result of magnitude \<open>2 ^ 1024\<close> or more is an infinity.
\<close>

definition round64 :: "real \<Rightarrow> fval" where
  "round64 x =
     (if x = 0 then Fin 0
      else let u = pow2 (binade x - 52);
               r = u * of_int (py_round (x / u))
           in if pow2 1024 \<le> \<bar>r\<bar> then (if 0 < x then PInf else NInf) else Fin r)"

text \<open>The division of two float64 values: the quotient, rounded once.\<close>

definition fdiv64 :: "fval \<Rightarrow> fval \<Rightarrow> fval" where
  "fdiv64 a b = (case fdiv a b of Fin q \<Rightarrow> round64 q | v \<Rightarrow> v)"

text \<open>
  \<open>weight /= np.mean(weight)\<close> and \<open>weight /= np.amax(weight)\<close> with every quotient
  rounded as it is stored. The order in which \<open>np.mean\<close> adds the cells is numpy's own;
  the rounded sum enters as the parameter \<open>summ\<close>.
\<close>

definition mean64 :: "(real list \<Rightarrow> fval) \<Rightarrow> array2 \<Rightarrow> fval" where
  "mean64 summ a = fdiv64 (summ (concat a)) (Fin (real (length (concat a))))"

definition div_by_mean64 :: "(real list \<Rightarrow> fval) \<Rightarrow> array2 \<Rightarrow> farray2" where
  "div_by_mean64 summ a = map (map (\<lambda>x. fdiv64 (Fin x) (mean64 summ a))) a"

definition fdiv_by_max64 :: "farray2 \<Rightarrow> error + farray2" where
  "fdiv_by_max64 a =
     (case amaxf a of Inl e \<Rightarrow> Inl e | Inr m \<Rightarrow> Inr (map (map (\<lambda>x. fdiv64 x m)) a))"

definition Entropy_normalise64 :: "(real list \<Rightarrow> fval) \<Rightarrow> array2 \<Rightarrow> error + farray2" where
  "Entropy_normalise64 summ weight = fdiv_by_max64 (div_by_mean64 summ weight)"

text \<open>Dividing by the maximum alone, in float64.\<close>

definition div_by_max64 :: "array2 \<Rightarrow> error + farray2" where
  "div_by_max64 a =
     (case amax a of Inl e \<Rightarrow> Inl e | Inr m \<Rightarrow>
        Inr (map (map (\<lambda>x. fdiv64 (Fin x) (Fin m))) a))"

text \<open>
  A blended map of four cells, and their sum: every partial sum of \<open>1.5\<close>, \<open>8\<close>, \<open>4\<close> and
  \<open>5.5\<close> is a small multiple of \<open>1/2\<close>, so float64 adds them without rounding in any
  order.
\<close>

definition exact_sum :: "real list \<Rightarrow> fval" where
  "exact_sum xs = Fin (sum_list xs)"

definition weight0 :: array2 where
  "weight0 = [[3 / 2, 8], [4, 11 / 2]]"

subsection \<open>An image of constant luminance\<close>


section \<open>Properties\<close>

subsection \<open>Rounding of the point-count bound\<close>

lemma py_round_tie: "py_round (real k + 1 / 2) = (if even k then int k else int k + 1)"
proof -
  have fl: "\<lfloor>real k + 1 / 2\<rfloor> = int k"
    by (simp add: floor_unique)
  show ?thesis
    unfolding py_round_def Let_def fl by simp
qed

lemma py_round_whole: "py_round (real k) = int k"
  by (simp add: py_round_def)

text \<open>
  Half of an even pixel count is exact; half of an odd one is a tie, rounded to the even
  neighbour.
\<close>

lemma py_round_half:
  "py_round (real p * 0.5) =
     (if even p then int (p div 2) else if even (p div 2) then int (p div 2) else int (p div 2) + 1)"
proof (cases "even p")
  case True
  then obtain k where k: "p = 2 * k" by (auto elim: evenE)
  have "real p * 0.5 = real k" by (simp add: k)
  then show ?thesis using True by (simp add: py_round_whole k)
next
  case False
  then obtain k where k: "p = 2 * k + 1" by (auto elim: oddE)
  have "real p * 0.5 = real k + 1 / 2" by (simp add: k field_simps)
  then have "py_round (real p * 0.5) = (if even k then int k else int k + 1)"
    by (simp only: py_round_tie)
  moreover have "p div 2 = k" by (simp add: k)
  ultimately show ?thesis using False by simp
qed

subsection \<open>Evaluation of the Canny stages on the sample image\<close>

lemma rgb2gray_im0: "rgb2gray im0 = Inr [[0, 0], [0, 1]]"
  by (simp add: rgb2gray_def shape2_def im0_def)

lemma blur_filt_0: "blur_filt 0 = Inr [[1]]"
  by (simp add: blur_filt_def)

lemma Canny_blurred_im0: "Canny_blurred im0 0 = Inr [[0, 0], [0, 1]]"
  by (simp add: Canny_blurred_def rgb2gray_im0 blur_filt_0 convolve2d_def dim0_def dim1_def
      symm_index_def)

lemma Canny_edge_im0: "Canny_edge im0 0 = Inr [[1, 2], [2, -5]]"
  by (simp add: Canny_edge_def Canny_blurred_im0 convolve2d_def dim0_def dim1_def
      symm_index_def edge_filt_def)

lemma Canny_thresholded_im0: "Canny_thresholded im0 0 = Inr [[1, 2], [2, 0]]"
  by (simp add: Canny_thresholded_def Canny_edge_im0 ndenumerate_def threshold_def)

lemma Canny_dense_im0: "Canny_dense im0 0 = Inr [[12, 12], [12, 9]]"
  by (simp add: Canny_dense_def Canny_thresholded_im0 convolve2d_def dim0_def dim1_def
      symm_index_def dense_filt_def eval_nat_numeral)

lemma Canny_compute_im0: "Canny_compute im0 0 = Inr [[Fin 1, Fin 1], [Fin 1, Fin (3 / 4)]]"
  by (simp add: Canny_compute_def Canny_dense_im0 div_by_max_def amax_def)

subsection \<open>Construction\<close>

text \<open>
  C4. When the requested count \<open>n\<close> exceeds \<open>round(width * height * 0.5)\<close>, the constructor
  fails with the warning "The number of points is too large", and so does every
  construct-then-extract call, whatever the algorithms and sampling strategies would
  do: nothing is computed or dispatched. When \<open>n\<close> is at most the bound, the constructor
  returns the extractor holding the image, its width and height, \<open>n\<close> and the selector.
  (The product \<open>width * height\<close> is taken exactly: below \<open>2 ^ 53\<close> pixels the float product of
  the source is exact.)
\<close>

theorem init_rejects_excessive_point_count:
  "(py_round (real (shape0 im * shape1 im) * 0.5) < n \<longrightarrow>
      EdgePoints_init im n edge = Inl (UserWarning ''The number of points is too large'') \<and>
      (\<forall>ext blur sampling.
         extract_points ext im n edge blur sampling =
           Inl (UserWarning ''The number of points is too large''))) \<and>
   (n \<le> py_round (real (shape0 im * shape1 im) * 0.5) \<longrightarrow>
      EdgePoints_init im n edge =
        Inr \<lparr> img = im, width = shape0 im, height = shape1 im,
              num_of_points = n, edge_method = edge \<rparr>)"
  by (simp add: EdgePoints_init_def extract_points_def Let_def)

theorem init_rejects_excessive_point_count_witness:
  "py_round (real (shape0 [[[0, 0, 0], [0, 0, 0], [0, 0, 0]]] *
                   shape1 [[[0, 0, 0], [0, 0, 0], [0, 0, 0]]]) * 0.5) = 2 \<and>
   EdgePoints_init [[[0, 0, 0], [0, 0, 0], [0, 0, 0]]] 3 (Member SOBEL)
     = Inl (UserWarning ''The number of points is too large'') \<and>
   extract_points ext0 [[[0, 0, 0], [0, 0, 0], [0, 0, 0]]] 3 (Member SOBEL) 1 (Member THRESHOLD)
     = Inl (UserWarning ''The number of points is too large'') \<and>
   EdgePoints_init [[[0, 0, 0], [0, 0, 0], [0, 0, 0]]] 2 (Member SOBEL)
     = Inr \<lparr> img = [[[0, 0, 0], [0, 0, 0], [0, 0, 0]]], width = 1, height = 3,
              num_of_points = 2, edge_method = Member SOBEL \<rparr>"
  using init_rejects_excessive_point_count [of "[[[0, 0, 0], [0, 0, 0], [0, 0, 0]]]" 3 "Member SOBEL"]
        init_rejects_excessive_point_count [of "[[[0, 0, 0], [0, 0, 0], [0, 0, 0]]]" 2 "Member SOBEL"]
  by (simp add: shape0_def shape1_def py_round_def)

subsection \<open>Extraction\<close>

text \<open>
  C3. When extraction on a constructed extractor succeeds, the returned sequence is the
  points the sampling strategy returned for the weight map, followed by the four corners
  \<open>(0, 0)\<close>, \<open>(0, H - 1)\<close>, \<open>(W - 1, 0)\<close>, \<open>(W - 1, H - 1)\<close> of the image: its length is the
  number of sampled points plus four, and its last four elements are the corners.
\<close>

theorem extraction_appends_corners:
  assumes "EdgePoints_init im n edge = Inr self"
      and "get_edge_points ext self blur sampling = Inr pts"
  shows "\<exists>edges sample_points.
           compute_edges ext self blur = Inr edges \<and>
           sample ext self sampling edges = Inr sample_points \<and>
           pts = sample_points @
                   [(0, 0), (0, int (shape1 im) - 1), (int (shape0 im) - 1, 0),
                    (int (shape0 im) - 1, int (shape1 im) - 1)] \<and>
           length pts = length sample_points + 4 \<and>
           drop (length pts - 4) pts =
             [(0, 0), (0, int (shape1 im) - 1), (int (shape0 im) - 1, 0),
              (int (shape0 im) - 1, int (shape1 im) - 1)]"
proof -
  from assms(1) have w: "width self = shape0 im" and h: "height self = shape1 im"
    by (auto simp: EdgePoints_init_def Let_def split: if_splits)
  from assms(2) obtain edges sp where
    e: "compute_edges ext self blur = Inr edges" and
    s: "sample ext self sampling edges = Inr sp" and
    p: "pts = sp @ corners self"
    by (auto simp: get_edge_points_def split: sum.splits)
  show ?thesis using e s p by (simp add: corners_def w h)
qed

theorem extraction_appends_corners_witness:
  "EdgePoints_init im0 2 (Member CANNY) =
     Inr \<lparr> img = im0, width = 2, height = 2, num_of_points = 2, edge_method = Member CANNY \<rparr> \<and>
   get_edge_points ext0
     \<lparr> img = im0, width = 2, height = 2, num_of_points = 2, edge_method = Member CANNY \<rparr>
     0 (Member THRESHOLD) = Inr [(1, 1), (0, 1), (0, 0), (0, 1), (1, 0), (1, 1)] \<and>
   drop (length ([(1, 1), (0, 1), (0, 0), (0, 1), (1, 0), (1, 1)] :: point list) - 4)
        ([(1, 1), (0, 1), (0, 0), (0, 1), (1, 0), (1, 1)] :: point list)
     = [(0, 0), (0, int (shape1 im0) - 1), (int (shape0 im0) - 1, 0),
        (int (shape0 im0) - 1, int (shape1 im0) - 1)]"
proof -
  have a: "EdgePoints_init im0 2 (Member CANNY) =
     Inr \<lparr> img = im0, width = 2, height = 2, num_of_points = 2, edge_method = Member CANNY \<rparr>"
    by (simp add: EdgePoints_init_def shape0_def shape1_def im0_def py_round_def)
  have b: "get_edge_points ext0
     \<lparr> img = im0, width = 2, height = 2, num_of_points = 2, edge_method = Member CANNY \<rparr>
     0 (Member THRESHOLD) = Inr [(1, 1), (0, 1), (0, 0), (0, 1), (1, 0), (1, 1)]"
    by (simp add: get_edge_points_def compute_edges_def sample_def corners_def ext0_def
        Canny_compute_im0)
  from extraction_appends_corners [OF a b] a b show ?thesis
    by (elim exE conjE) (intro conjI; assumption)
qed

subsection \<open>The thresholding loop\<close>

lemma upd_row_length:
  "k < length e \<Longrightarrow> length (e[i := (e ! i)[j := v]] ! k) = length (e ! k)"
  by (cases "k = i") simp_all

lemma upd_cell_nth:
  "k < length e \<Longrightarrow> l < length (e ! k) \<Longrightarrow>
   e[i := (e ! i)[j := v]] ! k ! l = (if k = i \<and> l = j then v else e ! k ! l)"
  by (cases "k = i") (simp_all add: nth_list_update)

lemma clamp_idem: "clamp (clamp v) = clamp v"
  by (simp add: clamp_def threshold_def)

lemma clamp_loop_shape:
  "length (clamp_loop idxs e) = length e \<and>
   (\<forall>i < length e. length (clamp_loop idxs e ! i) = length (e ! i))"
proof (induction idxs arbitrary: e)
  case Nil
  then show ?case by simp
next
  case (Cons ij idxs)
  obtain i j where ij: "ij = (i, j)" by (cases ij)
  show ?case
    using Cons.IH [of "e[i := (e ! i)[j := 0]]"] Cons.IH [of e]
    by (auto simp: ij upd_row_length)
qed

text \<open>
  A cell the loop has visited holds the clamped value, however often it was visited; a
  cell it has not visited is untouched.
\<close>

lemma clamp_loop_nth:
  "i < length e \<Longrightarrow> j < length (e ! i) \<Longrightarrow>
   clamp_loop idxs e ! i ! j = (if (i, j) \<in> set idxs then clamp (e ! i ! j) else e ! i ! j)"
proof (induction idxs arbitrary: e)
  case Nil
  then show ?case by simp
next
  case (Cons ab idxs)
  obtain a b where ab: "ab = (a, b)" by (cases ab)
  let ?e' = "if e ! a ! b < threshold then e[a := (e ! a)[b := 0]] else e"
  have len: "i < length ?e'" "j < length (?e' ! i)"
    using Cons.prems by (auto simp: upd_row_length)
  have step: "?e' ! i ! j = (if (i, j) = (a, b) then clamp (e ! i ! j) else e ! i ! j)"
    using Cons.prems by (auto simp: upd_cell_nth clamp_def)
  have "clamp_loop (ab # idxs) e ! i ! j = clamp_loop idxs ?e' ! i ! j"
    by (simp add: ab)
  also have "\<dots> = (if (i, j) \<in> set idxs then clamp (?e' ! i ! j) else ?e' ! i ! j)"
    using Cons.IH [OF len] .
  also have "\<dots> = (if (i, j) \<in> set (ab # idxs) then clamp (e ! i ! j) else e ! i ! j)"
    unfolding step by (auto simp: ab clamp_idem)
  finally show ?case .
qed

lemma ndenumerate_mem:
  "i < length e \<Longrightarrow> j < length (e ! i) \<Longrightarrow> (i, j) \<in> set (ndenumerate e)"
  by (auto simp: ndenumerate_def intro!: bexI [of _ i])

lemma clamp_loop_ndenumerate:
  "clamp_loop (ndenumerate e) e = map (map clamp) e"
proof (rule nth_equalityI)
  show "length (clamp_loop (ndenumerate e) e) = length (map (map clamp) e)"
    using clamp_loop_shape [of "ndenumerate e" e] by simp
next
  fix i assume "i < length (clamp_loop (ndenumerate e) e)"
  then have i: "i < length e" using clamp_loop_shape [of "ndenumerate e" e] by simp
  show "clamp_loop (ndenumerate e) e ! i = map (map clamp) e ! i"
  proof (rule nth_equalityI)
    show "length (clamp_loop (ndenumerate e) e ! i) = length (map (map clamp) e ! i)"
      using clamp_loop_shape [of "ndenumerate e" e] i by simp
  next
    fix j assume "j < length (clamp_loop (ndenumerate e) e ! i)"
    then have j: "j < length (e ! i)" using clamp_loop_shape [of "ndenumerate e" e] i by simp
    show "clamp_loop (ndenumerate e) e ! i ! j = map (map clamp) e ! i ! j"
      using clamp_loop_nth [OF i j, of "ndenumerate e"] ndenumerate_mem [OF i j] i j by simp
  qed
qed

text \<open>
  C5. In \<open>Canny.compute\<close> the thresholding loop turns the raw edge response into the array
  of the same shape in which every value below \<open>3/256\<close> is \<open>0\<close> and every value at or above
  \<open>3/256\<close> is the value itself.
\<close>

theorem threshold_clamps_below:
  assumes "Canny_edge im blur = Inr edge"
  shows "Canny_thresholded im blur =
           Inr (map (map (\<lambda>v. if v < 3 / 256 then 0 else v)) edge)"
  using assms clamp_loop_ndenumerate [of edge]
  by (simp add: Canny_thresholded_def clamp_def [abs_def] threshold_def)

theorem threshold_clamps_below_witness:
  "Canny_edge im0 0 = Inr [[1, 2], [2, -5]] \<and>
   Canny_thresholded im0 0 = Inr [[1, 2], [2, 0]]"
  using threshold_clamps_below [OF Canny_edge_im0] Canny_edge_im0 by simp

subsection \<open>Blur radius 0\<close>

lemma symm_index_id: "i < n \<Longrightarrow> symm_index n (int i) = i"
  by (simp add: symm_index_def)

lemma symm_index_less: "0 < n \<Longrightarrow> symm_index n i < n"
proof -
  assume n: "0 < n"
  let ?m = "i mod (2 * int n)"
  have "0 \<le> ?m" "?m < 2 * int n" using n by simp_all
  then show ?thesis unfolding symm_index_def Let_def by auto
qed

lemma rectangular_row: "rectangular a \<Longrightarrow> i < length a \<Longrightarrow> length (a ! i) = dim1 a"
proof -
  assume r: "rectangular a" and i: "i < length a"
  have "length (a ! i) = map length a ! i" using i by simp
  also have "\<dots> = replicate (dim0 a) (dim1 a) ! i" using r by (simp add: rectangular_def)
  also have "\<dots> = dim1 a" using i by (simp add: dim0_def)
  finally show ?thesis .
qed

lemma rectangular_map: "rectangular a \<Longrightarrow> rectangular (map (map f) a)"
  by (cases a) (simp_all add: rectangular_def dim0_def dim1_def comp_def)

text \<open>Convolution with the one-by-one kernel \<open>[[1]]\<close> returns the array.\<close>

lemma convolve2d_unit:
  assumes "rectangular a"
  shows "convolve2d a [[1]] = a"
proof -
  have rows: "map (\<lambda>j. a ! i ! j) [0..<dim1 a] = a ! i" if "i < length a" for i
    using rectangular_row [OF assms that] by (metis map_nth)
  have "convolve2d a [[1]] = map (\<lambda>i. map (\<lambda>j. a ! i ! j) [0..<dim1 a]) [0..<length a]"
    by (simp add: convolve2d_def Let_def dim0_def dim1_def [of "[[1]]"] symm_index_id)
  also have "\<dots> = map (\<lambda>i. a ! i) [0..<length a]"
    by (rule map_cong) (simp_all add: rows)
  also have "\<dots> = a" by (rule map_nth)
  finally show ?thesis .
qed

text \<open>
  C7. With blur radius 0 the averaging kernel is the one-by-one kernel \<open>[[1]]\<close>, and the
  blurred image that enters the Laplacian step is the grayscale image itself (or the
  error of the grayscale conversion), for every image array.
\<close>

theorem blur_zero_is_identity:
  assumes "rectangular im"
  shows "blur_filt 0 = Inr [[1]] \<and> Canny_blurred im 0 = rgb2gray im"
proof (cases "rgb2gray im")
  case (Inl e)
  then show ?thesis by (simp add: Canny_blurred_def blur_filt_0)
next
  case (Inr gray_img)
  then have "rectangular gray_img"
    using assms by (auto simp: rgb2gray_def rectangular_map split: if_splits)
  then show ?thesis
    using Inr by (simp add: Canny_blurred_def blur_filt_0 convolve2d_unit)
qed

theorem blur_zero_is_identity_witness:
  "rectangular im0 \<and> blur_filt 0 = Inr [[1]] \<and>
   Canny_blurred im0 0 = Inr [[0, 0], [0, 1]] \<and> rgb2gray im0 = Inr [[0, 0], [0, 1]]"
proof -
  have r: "rectangular im0"
    by (simp add: rectangular_def im0_def dim0_def dim1_def)
  from blur_zero_is_identity [OF r] r show ?thesis
    by (simp add: rgb2gray_im0)
qed

subsection \<open>Maxima of scaled arrays\<close>

lemma amax_Cons: "concat a = x # xs \<Longrightarrow> amax a = Inr (Max (set (concat a)))"
  by (simp only: amax_def list.case Max.set_eq_fold)

lemma amax_Inr_nonempty:
  assumes "amax a = Inr m"
  shows "\<exists>x xs. concat a = x # xs" and "m = Max (set (concat a))"
proof -
  show ne: "\<exists>x xs. concat a = x # xs"
    using assms by (cases "concat a") (simp_all add: amax_def del: concat_eq_Nil_conv)
  then obtain x xs where "concat a = x # xs" by blast
  from amax_Cons [OF this] assms show "m = Max (set (concat a))" by simp
qed

lemma fold_fmax_Fin: "fold fmax (map Fin xs) (Fin x) = Fin (fold max xs x)"
  by (induction xs arbitrary: x) simp_all

lemma amaxf_mono:
  assumes c: "concat a = x # xs" and f: "mono f"
  shows "amaxf (map (map (\<lambda>x. Fin (f x))) a) = Inr (Fin (f (Max (set (concat a)))))"
proof -
  have "concat (map (map (\<lambda>x. Fin (f x))) a) = map Fin (map f (concat a))"
    by (simp add: map_concat comp_def)
  also have "\<dots> = Fin (f x) # map Fin (map f xs)"
    by (simp only: c list.map)
  finally have "amaxf (map (map (\<lambda>x. Fin (f x))) a) = Inr (fold fmax (map Fin (map f xs)) (Fin (f x)))"
    by (simp only: amaxf_def list.case)
  also have "fold fmax (map Fin (map f xs)) (Fin (f x)) = Fin (fold max (map f xs) (f x))"
    by (rule fold_fmax_Fin)
  also have "fold max (map f xs) (f x) = Max (set (f x # map f xs))"
    by (simp only: Max.set_eq_fold)
  also have "set (f x # map f xs) = f ` set (concat a)"
    by (simp add: c)
  also have "Max (f ` set (concat a)) = f (Max (set (concat a)))"
    using mono_Max_commute [OF f, of "set (concat a)"] c by simp
  finally show ?thesis .
qed

lemma mono_divide: "0 < m \<Longrightarrow> mono (\<lambda>x::real. x / m)"
  by (simp add: mono_def divide_right_mono)

lemma div_by_max_pos:
  assumes "amax a = Inr m" "m \<noteq> 0"
  shows "div_by_max a = Inr (map (map (\<lambda>x. Fin (x / m))) a)"
  using assms by (simp add: div_by_max_def)

lemma max_of_div_by_max:
  assumes "amax a = Inr m" "0 < m"
  shows "\<exists>w. div_by_max a = Inr w \<and> amaxf w = Inr (Fin 1)"
proof -
  from amax_Inr_nonempty [OF assms(1)] obtain x xs
    where c: "concat a = x # xs" and m: "m = Max (set (concat a))" by blast
  have "amaxf (map (map (\<lambda>x. Fin (x / m))) a) = Inr (Fin (m / m))"
    using amaxf_mono [OF c mono_divide [OF assms(2)]] by (simp only: m [symmetric])
  then show ?thesis
    using div_by_max_pos [OF assms(1)] assms(2) by simp
qed



lemma sum_pos_Max_pos:
  fixes xs :: "real list"
  assumes "0 < sum_list xs"
  shows "0 < Max (set xs)"
proof (rule ccontr)
  assume "\<not> 0 < Max (set xs)"
  moreover have "xs \<noteq> []" using assms by auto
  ultimately have "\<forall>x\<in>set xs. x \<le> 0" by (auto simp: not_less)
  then have "sum_list xs \<le> 0" by (simp add: sum_list_nonpos)
  with assms show False by simp
qed

lemma mean_Fin:
  assumes "mean a = Fin mu"
  shows "\<exists>x xs. concat a = x # xs" and "mu = sum_list (concat a) / real (length (concat a))"
proof -
  have n: "real (length (concat a)) \<noteq> 0"
    using assms unfolding mean_def by (auto split: if_splits)
  then show "\<exists>x xs. concat a = x # xs" by (cases "concat a") simp_all
  show "mu = sum_list (concat a) / real (length (concat a))"
    using assms n unfolding mean_def by (simp del: of_nat_eq_0_iff length_0_conv)
qed

lemma normalise_is_div_by_max:
  assumes "mean weight = Fin mu" "0 < mu"
  shows "Entropy_normalise weight = div_by_max weight" and "\<exists>m. amax weight = Inr m \<and> 0 < m"
proof -
  from mean_Fin [OF assms(1)] obtain x xs where c: "concat weight = x # xs"
    and mu: "mu = sum_list (concat weight) / real (length (concat weight))" by blast
  have "0 < sum_list (concat weight)"
    using assms(2) unfolding mu by (simp add: zero_less_divide_iff c)
  then have "0 < Max (set (concat weight))" by (rule sum_pos_Max_pos)
  moreover define M where "M = Max (set (concat weight))"
  ultimately have M: "0 < M" by simp
  have am: "amax weight = Inr M" unfolding M_def by (rule amax_Cons [OF c])
  have dm: "div_by_mean weight = map (map (\<lambda>x. Fin (x / mu))) weight"
    using assms by (simp add: div_by_mean_def)
  have mx: "amaxf (div_by_mean weight) = Inr (Fin (M / mu))"
    unfolding dm M_def by (rule amaxf_mono [OF c mono_divide [OF assms(2)]])
  have "Entropy_normalise weight = Inr (map (map (\<lambda>x. Fin (x / M))) weight)"
    unfolding Entropy_normalise_def fdiv_by_max_def mx
    using M assms(2) by (simp add: dm comp_def)
  then show "Entropy_normalise weight = div_by_max weight"
    using div_by_max_pos [OF am] M by simp
  show "\<exists>m. amax weight = Inr m \<and> 0 < m" using am M by blast
qed



lemma amax_pos:
  assumes "x \<in> set (concat g)" and "0 < x"
  shows "\<exists>m. amax g = Inr m \<and> 0 < m"
proof -
  from assms(1) obtain y ys where c: "concat g = y # ys"
    by (cases "concat g") auto
  have "x \<le> Max (set (concat g))" using assms(1) by simp
  with amax_Cons [OF c] assms(2) show ?thesis by auto
qed

subsection \<open>Flat images through the Canny stages\<close>

lemma dims_flat2: "dim0 (flat2 W H c) = W" "0 < W \<Longrightarrow> dim1 (flat2 W H c) = H"
  by (cases W; simp add: dim0_def dim1_def flat2_def)+

lemma flat2_nth: "i < W \<Longrightarrow> j < H \<Longrightarrow> flat2 W H c ! i ! j = c"
  by (simp add: flat2_def)

lemma convolve2d_flat:
  assumes "0 < W" "0 < H"
  shows "convolve2d (flat2 W H c) k =
           flat2 W H (\<Sum>u\<leftarrow>[0..<dim0 k]. \<Sum>v\<leftarrow>[0..<dim1 k]. k ! u ! v * c)"
  unfolding convolve2d_def Let_def dims_flat2(1) dims_flat2(2) [OF assms(1)]
  by (simp add: flat2_nth symm_index_less assms map_replicate_trivial flat2_def)

lemma sum_list_const:
  "(\<And>u. u < n \<Longrightarrow> f u = (x::real)) \<Longrightarrow> (\<Sum>u\<leftarrow>[0..<n]. f u) = real n * x"
  by (induction n) (simp_all add: algebra_simps)

lemma blur_kernel_sum:
  assumes "0 < n"
  shows "(\<Sum>u\<leftarrow>[0..<n]. \<Sum>v\<leftarrow>[0..<n]. replicate n (replicate n (1 / (real n)\<^sup>2)) ! u ! v * c) = c"
proof -
  have inner: "(\<Sum>v\<leftarrow>[0..<n]. replicate n (replicate n (1 / (real n)\<^sup>2)) ! u ! v * c)
                 = real n * (1 / (real n)\<^sup>2 * c)" if "u < n" for u
    by (rule sum_list_const) (simp add: that)
  have "(\<Sum>u\<leftarrow>[0..<n]. \<Sum>v\<leftarrow>[0..<n]. replicate n (replicate n (1 / (real n)\<^sup>2)) ! u ! v * c)
          = real n * (real n * (1 / (real n)\<^sup>2 * c))"
    by (rule sum_list_const) (rule inner)
  also have "\<dots> = c" using assms by (simp add: power2_eq_square)
  finally show ?thesis .
qed

lemma convolve2d_blur_flat:
  assumes "0 < W" "0 < H" "0 \<le> blur"
  shows "\<exists>filt. blur_filt blur = Inr filt \<and> convolve2d (flat2 W H c) filt = flat2 W H c"
proof -
  define n where "n = nat (2 * blur + 1)"
  have n: "0 < n" "int n = 2 * blur + 1" using assms(3) by (simp_all add: n_def)
  have "real n = real_of_int (int n)" by simp
  also have "\<dots> = real_of_int (2 * blur + 1)" by (simp only: n(2))
  also have "\<dots> = 2 * real_of_int blur + 1" by simp
  finally have rn: "2 * real_of_int blur + 1 = real n" by simp
  have "nat (2 * blur + 1) = n" by (simp add: n_def)
  then have bf: "blur_filt blur = Inr (replicate n (replicate n (1 / (real n)\<^sup>2)))"
    using assms(3) by (simp add: blur_filt_def Let_def rn)
  have d: "dim0 (replicate n (replicate n (1 / (real n)\<^sup>2))) = n"
          "dim1 (replicate n (replicate n (1 / (real n)\<^sup>2))) = n"
    using dims_flat2 [of n n "1 / (real n)\<^sup>2"] n(1) by (simp_all add: flat2_def)
  show ?thesis
    using convolve2d_flat [OF assms(1,2), of c "replicate n (replicate n (1 / (real n)\<^sup>2))"]
    by (simp add: bf d blur_kernel_sum [OF n(1)])
qed

lemma convolve2d_edge_flat:
  assumes "0 < W" "0 < H"
  shows "convolve2d (flat2 W H c) edge_filt = flat2 W H 0"
  using convolve2d_flat [OF assms, of c edge_filt]
  by (simp add: edge_filt_def dim0_def dim1_def)

lemma convolve2d_dense_zero:
  assumes "0 < W" "0 < H"
  shows "convolve2d (flat2 W H 0) dense_filt = flat2 W H 0"
  using convolve2d_flat [OF assms, of 0 dense_filt]
  by simp

lemma amax_flat:
  assumes "0 < W" "0 < H"
  shows "amax (flat2 W H c) = Inr c"
proof -
  obtain W' H' where W: "W = Suc W'" and H: "H = Suc H'"
    using assms by (metis gr0_implies_Suc)
  have c: "concat (flat2 W H c) = c # (replicate H' c @ concat (replicate W' (replicate H c)))"
    by (simp add: flat2_def W H)
  have "set (concat (flat2 W H c)) = {c}"
    using assms by (auto simp: flat2_def)
  with amax_Cons [OF c] show ?thesis by simp
qed

lemma rgb2gray_flat:
  assumes "0 < W" "0 < H" "3 \<le> length p"
  shows "rgb2gray (flat2 W H p) = Inr (flat2 W H (0.2125 * p ! 0 + 0.7154 * p ! 1 + 0.0721 * p ! 2))"
proof -
  obtain W' H' where W: "W = Suc W'" and H: "H = Suc H'"
    using assms by (metis gr0_implies_Suc)
  have "shape2 (flat2 W H p) = length p" by (simp add: shape2_def flat2_def W H)
  then show ?thesis using assms(3) by (simp add: rgb2gray_def flat2_def)
qed

lemma Canny_flat:
  assumes "0 < W" "0 < H" "3 \<le> length p" "0 \<le> blur"
  shows "Canny_dense (flat2 W H p) blur = Inr (flat2 W H 0)"
    and "Canny_compute (flat2 W H p) blur = Inr (flat2 W H NaN)"
proof -
  let ?g = "0.2125 * p ! 0 + 0.7154 * p ! 1 + 0.0721 * p ! 2"
  from convolve2d_blur_flat [OF assms(1,2,4), of ?g]
  have b: "Canny_blurred (flat2 W H p) blur = Inr (flat2 W H ?g)"
    by (auto simp: Canny_blurred_def rgb2gray_flat [OF assms(1,2,3)])
  have e: "Canny_edge (flat2 W H p) blur = Inr (flat2 W H 0)"
    by (simp add: Canny_edge_def b convolve2d_edge_flat [OF assms(1,2)])
  have t: "Canny_thresholded (flat2 W H p) blur = Inr (flat2 W H 0)"
    by (simp add: Canny_thresholded_def e clamp_loop_ndenumerate)
       (simp add: flat2_def clamp_def threshold_def)
  show d: "Canny_dense (flat2 W H p) blur = Inr (flat2 W H 0)"
    by (simp add: Canny_dense_def t convolve2d_dense_zero [OF assms(1,2)])
  show "Canny_compute (flat2 W H p) blur = Inr (flat2 W H NaN)"
    by (simp add: Canny_compute_def d div_by_max_def amax_flat [OF assms(1,2)])
       (simp add: flat2_def)
qed

subsection \<open>The densified map has no negative cell\<close>

lemma convolve2d_shape:
  "length (convolve2d a k) = dim0 a"
  "i < dim0 a \<Longrightarrow> length (convolve2d a k ! i) = dim1 a"
  by (simp_all add: convolve2d_def Let_def)

lemma dim1_nth: "0 < length a \<Longrightarrow> dim1 a = length (a ! 0)"
  by (cases a) (simp_all add: dim1_def)

text \<open>Over an array without negative cells, a kernel without negative cells gives no negative cell.\<close>

lemma sum_list_upt_nonneg:
  "(\<And>u. u < n \<Longrightarrow> 0 \<le> f u) \<Longrightarrow> 0 \<le> (\<Sum>u\<leftarrow>[0..<n]. (f u :: real))"
  by (rule sum_list_nonneg) auto

lemma convolve2d_nonneg:
  assumes shape: "length a = W" "\<And>i. i < W \<Longrightarrow> length (a ! i) = H"
      and cells: "\<And>i j. i < W \<Longrightarrow> j < H \<Longrightarrow> 0 \<le> a ! i ! j"
      and kern: "\<And>u v. u < dim0 k \<Longrightarrow> v < dim1 k \<Longrightarrow> 0 \<le> k ! u ! v"
      and x: "x \<in> set (concat (convolve2d a k))"
  shows "0 \<le> x"
proof -
  have d0: "dim0 a = W" by (simp add: dim0_def shape(1))
  from x obtain i j where i: "i < W" and j: "j < dim1 a"
    and xe: "x = (\<Sum>u\<leftarrow>[0..<dim0 k]. \<Sum>v\<leftarrow>[0..<dim1 k].
               k ! u ! v *
               a ! symm_index W (int i + int ((dim0 k - 1) div 2) - int u)
                 ! symm_index (dim1 a) (int j + int ((dim1 k - 1) div 2) - int v))"
    by (auto simp: convolve2d_def Let_def d0)
  have W: "0 < W" using i by simp
  have d1: "dim1 a = H" using dim1_nth [of a] shape W by simp
  have H: "0 < H" using j d1 by simp
  show ?thesis
    unfolding xe d1
    by (intro sum_list_upt_nonneg mult_nonneg_nonneg kern cells symm_index_less W H)
qed

lemma Canny_dense_nonneg:
  assumes "Canny_dense im blur = Inr dense" and "x \<in> set (concat dense)"
  shows "0 \<le> x"
proof -
  from assms(1) obtain edge where dense: "dense = convolve2d (map (map clamp) edge) dense_filt"
    and e: "Canny_edge im blur = Inr edge"
    by (auto simp: Canny_dense_def Canny_thresholded_def clamp_loop_ndenumerate split: sum.splits)
  from e obtain blurred where edge: "edge = convolve2d blurred edge_filt"
    by (auto simp: Canny_edge_def split: sum.splits)
  let ?t = "map (map clamp) edge"
  let ?W = "dim0 blurred" and ?H = "dim1 blurred"
  have s1: "length ?t = ?W" by (simp add: edge convolve2d_shape)
  have s2: "length (?t ! i) = ?H" if "i < ?W" for i
    using that by (simp add: edge convolve2d_shape)
  have c: "0 \<le> ?t ! i ! j" if "i < ?W" "j < ?H" for i j
    using that by (simp add: edge convolve2d_shape clamp_def threshold_def)
  have df: "dense_filt = flat2 3 3 1" by (simp add: dense_filt_def flat2_def)
  have k: "0 \<le> dense_filt ! u ! v" if "u < dim0 dense_filt" "v < dim1 dense_filt" for u v
    using that unfolding df by (simp add: dims_flat2 flat2_nth)
  show ?thesis
    using convolve2d_nonneg [of ?t ?W ?H dense_filt x, OF s1 s2 c k] assms(2) dense by simp
qed

subsection \<open>Evaluation on the low-contrast image and on the sample feature maps\<close>

lemma Canny_dense_im_low: "Canny_dense im_low 0 = Inr [[0, 0], [0, 0]]"
proof -
  have g: "rgb2gray im_low = Inr [[0, 0], [0, 1 / 1000]]"
    by (simp add: rgb2gray_def shape2_def im_low_def)
  have b: "Canny_blurred im_low 0 = Inr [[0, 0], [0, 1 / 1000]]"
    by (simp add: Canny_blurred_def g blur_filt_0 convolve2d_def dim0_def dim1_def symm_index_def)
  have e: "Canny_edge im_low 0 = Inr [[1 / 1000, 2 / 1000], [2 / 1000, - 5 / 1000]]"
    by (simp add: Canny_edge_def b convolve2d_def dim0_def dim1_def symm_index_def edge_filt_def)
  have t: "Canny_thresholded im_low 0 = Inr [[0, 0], [0, 0]]"
    by (simp add: Canny_thresholded_def e ndenumerate_def threshold_def)
  show ?thesis
    by (simp add: Canny_dense_def t convolve2d_def dim0_def dim1_def symm_index_def
        dense_filt_def eval_nat_numeral)
qed

lemma Canny_compute_im_low: "Canny_compute im_low 0 = Inr [[NaN, NaN], [NaN, NaN]]"
  by (simp add: Canny_compute_def Canny_dense_im_low div_by_max_def amax_def)

lemma blend_ext0: "blend (1 / 10) (entropy_stage ext0 im) (edges_stage ext0 im) = [[9 / 10, 1], [1 / 5, 21 / 10]]"
  by (simp add: blend_def ext0_def)

lemma mean_blend_ext0: "mean [[9 / 10, 1], [1 / 5, 21 / 10]] = Fin (21 / 20)"
  by (simp add: mean_def)

lemma Entropy_ext0:
  "Entropy_compute (entropy_stage ext0) (edges_stage ext0) im (1 / 10)
     = Inr [[Fin (3 / 7), Fin (10 / 21)], [Fin (2 / 21), Fin 1]]"
  by (simp add: Entropy_compute_def blend_ext0 Entropy_normalise_def div_by_mean_def
      mean_blend_ext0 fdiv_by_max_def amaxf_def)



subsection \<open>The maximum of the weight map\<close>

text \<open>
  A non-constant image whose Laplacian responses all stay below the threshold has an
  all-zero densified map; \<open>Canny.compute\<close> then returns NaN in every cell, and the maximum
  of the weight map is NaN, not 1.
\<close>

theorem nonconstant_image_without_unit_maximum:
  "\<not> constant_image im_low \<and>
   Canny_compute im_low 0 = Inr [[NaN, NaN], [NaN, NaN]] \<and>
   amaxf [[NaN, NaN], [NaN, NaN]] = Inr NaN \<and>
   amaxf [[NaN, NaN], [NaN, NaN]] \<noteq> Inr (Fin 1)"
  by (simp add: Canny_compute_im_low amaxf_def) (simp add: constant_image_def im_low_def)

text \<open>
  C1 (amended). Whenever the map before normalisation is not degenerate, the returned
  weight map has maximum exactly 1: for \<open>Canny.compute\<close> when the densified map is not
  zero in every cell, for \<open>Entropy.compute\<close> when the blended map has a positive mean.
\<close>

theorem normalised_maximum_is_one:
  "(Canny_dense im blur = Inr dense \<and> (\<exists>x \<in> set (concat dense). x \<noteq> 0) \<longrightarrow>
      (\<exists>w. Canny_compute im blur = Inr w \<and> amaxf w = Inr (Fin 1))) \<and>
   (mean (blend bal (entropy_f im) (edges_f im)) = Fin mu \<and> 0 < mu \<longrightarrow>
      (\<exists>w. Entropy_compute entropy_f edges_f im bal = Inr w \<and> amaxf w = Inr (Fin 1)))"
proof (intro conjI impI)
  assume a: "Canny_dense im blur = Inr dense \<and> (\<exists>x \<in> set (concat dense). x \<noteq> 0)"
  then obtain x where x: "x \<in> set (concat dense)" "x \<noteq> 0" by blast
  with Canny_dense_nonneg [of im blur dense x] a have "0 < x" by simp
  from amax_pos [OF x(1) this] obtain m where "amax dense = Inr m" "0 < m" by blast
  then show "\<exists>w. Canny_compute im blur = Inr w \<and> amaxf w = Inr (Fin 1)"
    using max_of_div_by_max [of dense m] a by (simp add: Canny_compute_def)
next
  let ?w = "blend bal (entropy_f im) (edges_f im)"
  assume a: "mean ?w = Fin mu \<and> 0 < mu"
  then obtain m where "Entropy_normalise ?w = div_by_max ?w" "amax ?w = Inr m" "0 < m"
    using normalise_is_div_by_max [of ?w mu] by blast
  then show "\<exists>w. Entropy_compute entropy_f edges_f im bal = Inr w \<and> amaxf w = Inr (Fin 1)"
    using max_of_div_by_max [of ?w m] by (simp add: Entropy_compute_def Let_def)
qed

theorem normalised_maximum_is_one_witness:
  "Canny_dense im0 0 = Inr [[12, 12], [12, 9]] \<and>
   (\<exists>x \<in> set (concat [[12, 12], [12, 9 :: real]]). x \<noteq> 0) \<and>
   Canny_compute im0 0 = Inr [[Fin 1, Fin 1], [Fin 1, Fin (3 / 4)]] \<and>
   amaxf [[Fin 1, Fin 1], [Fin 1, Fin (3 / 4)]] = Inr (Fin 1) \<and>
   mean (blend (1 / 10) (entropy_stage ext0 im0) (edges_stage ext0 im0)) = Fin (21 / 20) \<and>
   Entropy_compute (entropy_stage ext0) (edges_stage ext0) im0 (1 / 10)
     = Inr [[Fin (3 / 7), Fin (10 / 21)], [Fin (2 / 21), Fin 1]] \<and>
   amaxf [[Fin (3 / 7), Fin (10 / 21)], [Fin (2 / 21), Fin 1]] = Inr (Fin 1)"
proof -
  have a: "\<exists>x \<in> set (concat [[12, 12], [12, 9 :: real]]). x \<noteq> 0" by simp
  have m: "mean (blend (1 / 10) (entropy_stage ext0 im0) (edges_stage ext0 im0)) = Fin (21 / 20)"
    by (simp add: blend_ext0 mean_blend_ext0)
  from normalised_maximum_is_one
    [of im0 0 "[[12, 12], [12, 9]]" "1 / 10" "entropy_stage ext0" "edges_stage ext0" "21 / 20"]
  show ?thesis
    using a m Canny_dense_im0 by (simp add: Canny_compute_im0 Entropy_ext0)
qed

text \<open>
  In float64 every cell is rounded twice on the way through the two divisions and once
  when it is divided by the maximum alone. On the map \<open>[[1.5, 8], [4, 5.5]]\<close> (mean
  \<open>4.75\<close>) the last cell comes out as \<open>0.6875 + 2 ^ -53\<close> instead of \<open>0.6875\<close>.
\<close>

lemma pow2_powr: "pow2 k = 2 powr real_of_int k"
proof (cases "0 \<le> k")
  case True
  then have "real_of_int k = real (nat k)" by simp
  then have "2 powr real_of_int k = 2 ^ nat k"
    by (simp only: powr_realpow zero_less_numeral)
  then show ?thesis using True by (simp add: pow2_def)
next
  case False
  then have "real_of_int k = - real (nat (- k))" by simp
  then have "2 powr real_of_int k = 1 / 2 powr real (nat (- k))"
    by (simp only: powr_minus_divide)
  also have "\<dots> = 1 / 2 ^ nat (- k)"
    by (simp only: powr_realpow zero_less_numeral)
  finally show ?thesis using False by (simp add: pow2_def)
qed

lemma floor_log2:
  assumes "0 < x" and "pow2 e \<le> x" and "x < pow2 (e + 1)"
  shows "\<lfloor>log 2 x\<rfloor> = e"
proof (rule floor_unique)
  show "real_of_int e \<le> log 2 x"
    using assms by (simp add: pow2_powr le_log_iff)
  show "log 2 x < real_of_int e + 1"
    using assms by (simp add: pow2_powr log_less_iff)
qed

lemma round64_eval:
  assumes "0 < x" and "pow2 e \<le> x" and "x < pow2 (e + 1)" and "- 1022 \<le> e"
      and "py_round (x / pow2 (e - 52)) = n" and "pow2 (e - 52) * of_int n < pow2 1024"
      and "0 \<le> n"
  shows "round64 x = Fin (pow2 (e - 52) * of_int n)"
proof -
  have b: "binade x = e"
    using floor_log2 [OF assms(1,2,3)] assms(1,4) by (simp add: binade_def)
  have "0 \<le> pow2 (e - 52) * of_int n" using assms(7) by (simp add: pow2_def)
  then show ?thesis
    using assms(1,5,6) by (simp add: round64_def b Let_def)
qed

lemma round64_6_19: "round64 (6 / 19) = Fin (2844378712023471 / 9007199254740992)"
  using round64_eval [of "6 / 19" "- 2" 5688757424046942]
  by (simp add: pow2_def py_round_def)

lemma round64_32_19: "round64 (32 / 19) = Fin (948126237341157 / 562949953421312)"
  using round64_eval [of "32 / 19" 0 7585009898729256]
  by (simp add: pow2_def py_round_def)

lemma round64_16_19: "round64 (16 / 19) = Fin (948126237341157 / 1125899906842624)"
  using round64_eval [of "16 / 19" "- 1" 7585009898729256]
  by (simp add: pow2_def py_round_def)

lemma round64_22_19: "round64 (22 / 19) = Fin (1303673576344091 / 1125899906842624)"
  using round64_eval [of "22 / 19" 0 5214694305376364]
  by (simp add: pow2_def py_round_def)

lemma round64_19_4: "round64 (19 / 4) = Fin (19 / 4)"
  using round64_eval [of "19 / 4" 2 5348024557502464]
  by (simp add: pow2_def py_round_def)

lemma round64_3_16: "round64 (3 / 16) = Fin (3 / 16)"
  using round64_eval [of "3 / 16" "- 3" 6755399441055744]
  by (simp add: pow2_def py_round_def)

lemma round64_1: "round64 1 = Fin 1"
  using round64_eval [of 1 0 4503599627370496]
  by (simp add: pow2_def py_round_def)

lemma round64_1_2: "round64 (1 / 2) = Fin (1 / 2)"
  using round64_eval [of "1 / 2" "- 1" 4503599627370496]
  by (simp add: pow2_def py_round_def)

lemma round64_11_16: "round64 (11 / 16) = Fin (11 / 16)"
  using round64_eval [of "11 / 16" "- 1" 6192449487634432]
  by (simp add: pow2_def py_round_def)

lemma round64_twice:
  "round64 (1303673576344091 / 1896252474682314) = Fin (6192449487634433 / 9007199254740992)"
  using round64_eval [of "1303673576344091 / 1896252474682314" "- 1" 6192449487634433]
  by (simp add: pow2_def py_round_def)

lemma mean64_weight0: "mean64 exact_sum weight0 = Fin (19 / 4)"
  by (simp add: mean64_def exact_sum_def weight0_def fdiv64_def round64_19_4)

lemma div_by_mean64_weight0:
  "div_by_mean64 exact_sum weight0 =
     [[Fin (2844378712023471 / 9007199254740992), Fin (948126237341157 / 562949953421312)],
      [Fin (948126237341157 / 1125899906842624), Fin (1303673576344091 / 1125899906842624)]]"
  unfolding div_by_mean64_def mean64_weight0
  by (simp add: weight0_def fdiv64_def round64_6_19 round64_32_19 round64_16_19 round64_22_19)

lemma Entropy_normalise64_weight0:
  "Entropy_normalise64 exact_sum weight0 =
     Inr [[Fin (3 / 16), Fin 1], [Fin (1 / 2), Fin (6192449487634433 / 9007199254740992)]]"
  unfolding Entropy_normalise64_def div_by_mean64_weight0
  by (simp add: fdiv_by_max64_def amaxf_def fdiv64_def round64_3_16 round64_1 round64_1_2
      round64_twice)

lemma div_by_max64_weight0:
  "div_by_max64 weight0 = Inr [[Fin (3 / 16), Fin 1], [Fin (1 / 2), Fin (11 / 16)]]"
  by (simp add: div_by_max64_def weight0_def amax_def fdiv64_def round64_3_16 round64_1
      round64_1_2 round64_11_16)

theorem float64_mean_division_changes_last_place:
  "mean64 exact_sum weight0 = Fin (19 / 4) \<and>
   Entropy_normalise64 exact_sum weight0 =
     Inr [[Fin (3 / 16), Fin 1], [Fin (1 / 2), Fin (6192449487634433 / 9007199254740992)]] \<and>
   div_by_max64 weight0 = Inr [[Fin (3 / 16), Fin 1], [Fin (1 / 2), Fin (11 / 16)]] \<and>
   Entropy_normalise64 exact_sum weight0 \<noteq> div_by_max64 weight0"
  by (simp add: mean64_weight0 Entropy_normalise64_weight0 div_by_max64_weight0)

text \<open>
  C10 (amended). In exact arithmetic, for every blended map with a positive mean,
  dividing by the mean and then by the maximum of the result gives the same weight map as
  dividing by the maximum alone.
\<close>

theorem mean_division_is_redundant:
  assumes "mean weight = Fin mu" and "0 < mu"
  shows "Entropy_normalise weight = div_by_max weight"
  using normalise_is_div_by_max(1) [OF assms] .

theorem mean_division_is_redundant_witness:
  "mean [[9 / 10, 1], [1 / 5, 21 / 10]] = Fin (21 / 20) \<and>
   Entropy_normalise [[9 / 10, 1], [1 / 5, 21 / 10]]
     = Inr [[Fin (3 / 7), Fin (10 / 21)], [Fin (2 / 21), Fin 1]] \<and>
   div_by_max [[9 / 10, 1], [1 / 5, 21 / 10]]
     = Inr [[Fin (3 / 7), Fin (10 / 21)], [Fin (2 / 21), Fin 1]]"
proof -
  have d: "div_by_max [[9 / 10, 1], [1 / 5, 21 / 10]]
             = Inr [[Fin (3 / 7), Fin (10 / 21)], [Fin (2 / 21), Fin 1]]"
    by (simp add: div_by_max_def amax_def)
  from mean_division_is_redundant [OF mean_blend_ext0] d mean_blend_ext0
  show ?thesis by simp
qed







subsection \<open>Flat images\<close>

text \<open>
  The solid-colour image of ten by ten pixels with blur radius 1: \<open>Canny.compute\<close> returns
  normally, and the map it returns holds NaN in every cell.
\<close>

theorem solid_colour_image_returns_nan:
  "Canny_compute (flat2 10 10 [1 / 2, 1 / 2, 1 / 2]) 1 = Inr (flat2 10 10 NaN) \<and>
   flat2 10 10 NaN ! 0 ! 0 = NaN"
  using Canny_flat(2) [of 10 10 "[1 / 2, 1 / 2, 1 / 2]" 1]
  by (simp add: flat2_def)

text \<open>
  C2 (amended). For every uniformly flat image (at least three channels, positive width
  and height) and every blur radius \<open>blur \<ge> 0\<close>, the densified map of \<open>Canny.compute\<close> is
  zero in every cell before normalisation; the division by its maximum \<open>0\<close> is carried out,
  nothing is raised, and the returned map is NaN in every cell.
\<close>

theorem flat_image_yields_nan_map:
  assumes "0 < W" and "0 < H" and "3 \<le> length p" and "0 \<le> blur"
  shows "Canny_dense (flat2 W H p) blur = Inr (flat2 W H 0) \<and>
         Canny_compute (flat2 W H p) blur = Inr (flat2 W H NaN)"
  using Canny_flat [OF assms] by simp

theorem flat_image_yields_nan_map_witness:
  "(0::nat) < 2 \<and> (0::nat) < 3 \<and> 3 \<le> length [1 / 2, 1 / 2, 1 / 2 :: real] \<and> (0::int) \<le> 1 \<and>
   Canny_dense [[[1 / 2, 1 / 2, 1 / 2], [1 / 2, 1 / 2, 1 / 2], [1 / 2, 1 / 2, 1 / 2]],
                [[1 / 2, 1 / 2, 1 / 2], [1 / 2, 1 / 2, 1 / 2], [1 / 2, 1 / 2, 1 / 2]]] 1
     = Inr [[0, 0, 0], [0, 0, 0]] \<and>
   Canny_compute [[[1 / 2, 1 / 2, 1 / 2], [1 / 2, 1 / 2, 1 / 2], [1 / 2, 1 / 2, 1 / 2]],
                  [[1 / 2, 1 / 2, 1 / 2], [1 / 2, 1 / 2, 1 / 2], [1 / 2, 1 / 2, 1 / 2]]] 1
     = Inr [[NaN, NaN, NaN], [NaN, NaN, NaN]]"
  using flat_image_yields_nan_map [of 2 3 "[1 / 2, 1 / 2, 1 / 2]" 1]
  by (simp add: flat2_def eval_nat_numeral)

subsection \<open>Unsupported selectors\<close>

text \<open>
  C8. With an edge selector that is not a member of \<open>EdgeMethod\<close> (here \<open>None\<close>), extraction
  raises \<open>ValueError\<close> before any weight map is computed; the message names
  \<open>SampleMethod\<close> and lists the members of \<open>SampleMethod\<close>, the sampling strategies, and
  not the members of \<open>EdgeMethod\<close>.
\<close>

theorem unsupported_edge_method_names_sampling_methods:
  "get_edge_points ext0
     \<lparr> img = im0, width = 2, height = 2, num_of_points = 2, edge_method = NonMember ''None'' \<rparr>
     0 (Member THRESHOLD)
   = Inl (ValueError (''Unexpected edge processing method: None'' @ [CHR 0x0A] @
                      ''use SampleMethod instead: {POISSON_DISK, THRESHOLD}''))"
  by (simp add: get_edge_points_def compute_edges_def unexpected_edge_message_def ext0_def)

subsection \<open>The input image is not mutated\<close>

lemma clamp_loop_st_cell:
  "edge < length s \<Longrightarrow> s ! edge = Arr x \<Longrightarrow>
   clamp_loop_st edge idxs s = s[edge := Arr (clamp_loop idxs x)]"
proof (induction idxs arbitrary: s x)
  case Nil
  then have "s[edge := Arr x] = s" by (metis list_update_id)
  then show ?case by simp
next
  case (Cons ij idxs)
  obtain i j where ij: "ij = (i, j)" by (cases ij)
  show ?case
  proof (cases "x ! i ! j < threshold")
    case True
    let ?s = "s[edge := Arr (x[i := (x ! i)[j := 0]])]"
    have "clamp_loop_st edge idxs ?s = ?s[edge := Arr (clamp_loop idxs (x[i := (x ! i)[j := 0]]))]"
      by (rule Cons.IH) (simp_all add: Cons.prems)
    then show ?thesis using True Cons.prems by (simp add: ij read_array_def)
  next
    case False
    then show ?thesis using Cons.IH [OF Cons.prems] Cons.prems by (simp add: ij read_array_def)
  qed
qed

lemma Canny_compute_st_frame:
  assumes "a < length s" and "s ! a = Img im"
  shows "take (length s) (snd (Canny_compute_st a blur s)) = s"
  using assms
  by (simp add: Canny_compute_st_def alloc_def read_image_def read_array_def Let_def
      clamp_loop_st_cell nth_append split: sum.splits)

lemma Canny_compute_st_result:
  assumes "a < length s" and "s ! a = Img im"
  shows "case Canny_compute_st a blur s of
           (Inl e, s') \<Rightarrow> Canny_compute im blur = Inl e
         | (Inr d, s') \<Rightarrow> length s \<le> d \<and> d < length s' \<and>
                           Canny_compute im blur = Inr (read_farray s' d)"
  using assms
  by (simp add: Canny_compute_st_def alloc_def read_image_def read_array_def read_farray_def Let_def
      clamp_loop_st_cell nth_append split: sum.splits)
     (auto simp add: Canny_compute_def Canny_dense_def Canny_thresholded_def Canny_edge_def Canny_blurred_def div_by_max_def)


lemma Entropy_compute_st_frame:
  assumes "a < length s" and "s ! a = Img im"
  shows "take (length s) (snd (Entropy_compute_st entropy_f edges_f a bal s)) = s"
  using assms
  by (simp add: Entropy_compute_st_def alloc_def read_image_def read_array_def read_farray_def
      Let_def nth_append split: sum.splits)

lemma Entropy_compute_st_result:
  assumes "a < length s" and "s ! a = Img im"
  shows "case Entropy_compute_st entropy_f edges_f a bal s of
           (Inl e, s') \<Rightarrow> Entropy_compute entropy_f edges_f im bal = Inl e
         | (Inr d, s') \<Rightarrow> length s \<le> d \<and> d < length s' \<and>
                           Entropy_compute entropy_f edges_f im bal = Inr (read_farray s' d)"
  using assms
  by (simp add: Entropy_compute_st_def alloc_def read_image_def read_array_def read_farray_def
      Let_def nth_append Entropy_compute_def Entropy_normalise_def fdiv_by_max_def
      split: sum.splits)

lemma Sobel_compute_st_frame:
  assumes "a < length s" and "s ! a = Img im"
  shows "take (length s) (snd (Sobel_compute_st a k_size s)) = s"
  using assms
  by (simp add: Sobel_compute_st_def alloc_def read_image_def read_array_def
      Let_def nth_append split: sum.splits option.splits)

lemma Sobel_compute_st_result:
  assumes "a < length s" and "s ! a = Img im"
  shows "case Sobel_compute_st a k_size s of
           (Inl e, s') \<Rightarrow> Sobel_compute im k_size = Inl e
         | (Inr d, s') \<Rightarrow> length s \<le> d \<and> d < length s' \<and>
                           Sobel_compute im k_size = Inr (read_farray s' d)"
  using assms
  by (simp add: Sobel_compute_st_def alloc_def read_image_def read_array_def read_farray_def
      Let_def nth_append Sobel_compute_def Sobel_g_def sobel_gray_def scale_to_255_def
      split: sum.splits option.splits)

text \<open>
  C9. Let the image be an allocated array of the store. After \<open>Canny.compute\<close>,
  \<open>Entropy.compute\<close> or \<open>Sobel.compute\<close> on it, whether the call returns or raises, every
  array that was allocated before the call holds what it held before; in particular the
  image does.
\<close>

theorem algorithms_leave_image_unchanged:
  assumes "a < length s" and "s ! a = Img im"
  shows "take (length s) (snd (Canny_compute_st a blur s)) = s \<and>
         snd (Canny_compute_st a blur s) ! a = Img im \<and>
         take (length s) (snd (Entropy_compute_st entropy_f edges_f a bal s)) = s \<and>
         snd (Entropy_compute_st entropy_f edges_f a bal s) ! a = Img im \<and>
         take (length s) (snd (Sobel_compute_st a k_size s)) = s \<and>
         snd (Sobel_compute_st a k_size s) ! a = Img im"
proof -
  have keep: "s' ! a = Img im" if "take (length s) s' = s" for s'
  proof -
    have "s' ! a = take (length s) s' ! a" using assms(1) by simp
    then show ?thesis using that assms(2) by simp
  qed
  show ?thesis
    using Canny_compute_st_frame [OF assms, of blur]
          Entropy_compute_st_frame [OF assms, of entropy_f edges_f bal]
          Sobel_compute_st_frame [OF assms, of k_size]
    by (simp add: keep)
qed

theorem algorithms_leave_image_unchanged_witness:
  "(0::nat) < length [Img im0] \<and> [Img im0] ! 0 = Img im0 \<and>
   snd (Canny_compute_st 0 0 [Img im0]) ! 0 = Img im0 \<and>
   snd (Entropy_compute_st (entropy_stage ext0) (edges_stage ext0) 0 (1 / 10) [Img im0]) ! 0
     = Img im0 \<and>
   snd (Sobel_compute_st 0 5 [Img im0]) ! 0 = Img im0"
  using algorithms_leave_image_unchanged
    [of 0 "[Img im0]" im0 0 "entropy_stage ext0" "edges_stage ext0" "1 / 10" 5]
  by simp

end
